theory Spec2Isabelle
  imports Main "HOL-Library.Sublist"
begin

section \<open>Data model\<close>

text \<open>
  Both document checkers (\<^verbatim>\<open>pages/Static_Testing.py\<close> and
  \<^verbatim>\<open>pages/Static_Testing_Agent_v1.py\<close>) pass defects around as dictionaries with the
  four string keys \<^verbatim>\<open>'Defect Type'\<close>, \<^verbatim>\<open>'Description'\<close>, \<^verbatim>\<open>'Location'\<close> and
  \<^verbatim>\<open>'Severity'\<close>; the summary rows of the agent page are dictionaries with the keys
  \<^verbatim>\<open>'Pattern'\<close>, \<^verbatim>\<open>'Structure Element'\<close>, \<^verbatim>\<open>'Test Result'\<close> and \<^verbatim>\<open>'Remarks'\<close>, and only
  the row of a failed load carries \<^verbatim>\<open>'File Name'\<close> as well. All values are strings, as in
  the source. Strings are lists of 8-bit characters here, so the model speaks about ASCII
  text: \<open>length\<close> is Python's \<^verbatim>\<open>len\<close> and \<open>upper\<close> is Python's \<^verbatim>\<open>str.upper\<close> on such text.
\<close>

record defect =
  Defect_Type :: string
  Description :: string
  Location :: string
  Severity :: string

record report_row =
  File_Name :: "string option"
  Pattern :: string
  Structure_Element :: string
  Test_Result :: string
  Remarks :: string

datatype py_error = IndexError

text \<open>
  A document is the sequence of its paragraph texts (\<^verbatim>\<open>[p.text for p in document.paragraphs]\<close>).
  The uploaded file is modelled by what \<^verbatim>\<open>Document(BytesIO(doc_file.read()))\<close> does with it:
  \<open>Inl msg\<close> when the constructor raises an exception whose text is \<open>msg\<close>, \<open>Inr ps\<close> when it
  returns a document with the paragraph texts \<open>ps\<close>.
\<close>

type_synonym document = "string list"
type_synonym doc_file = "string + document"

section \<open>Python string operations\<close>

definition squote :: string where
  "squote = [CHR 0x27]"

definition dquote :: string where
  "dquote = [CHR 0x22]"

definition newline :: string where
  "newline = [CHR 0x0A]"

text \<open>\<^verbatim>\<open>str.upper\<close> on ASCII text.\<close>

definition upper_char :: "char \<Rightarrow> char" where
  "upper_char c =
     (if (97::nat) \<le> of_char c \<and> of_char c \<le> (122::nat)
      then char_of (of_char c - (32::nat)) else c)"

definition upper :: "string \<Rightarrow> string" where
  "upper s = map upper_char s"

text \<open>\<^verbatim>\<open>sep.join(xs)\<close>.\<close>

fun join :: "string \<Rightarrow> string list \<Rightarrow> string" where
  "join sep [] = []"
| "join sep [x] = x"
| "join sep (x # y # ys) = x @ sep @ join sep (y # ys)"

text \<open>\<^verbatim>\<open>str(n)\<close> for a non-negative integer, as the f-strings print it.\<close>

definition digit_char :: "nat \<Rightarrow> char" where
  "digit_char d = char_of (48 + d)"

function str_nat :: "nat \<Rightarrow> string" where
  "str_nat n = (if n < 10 then [digit_char n] else str_nat (n div 10) @ [digit_char (n mod 10)])"
  by pat_completeness auto
termination
  by (relation "measure (\<lambda>n. n)") auto

declare str_nat.simps [simp del]

text \<open>
  \<^verbatim>\<open>s.split(sep)\<close> with a non-empty separator: the pieces between the leftmost,
  non-overlapping occurrences of \<open>sep\<close>. \<open>cur\<close> is the piece being collected and \<open>skip\<close> counts
  the characters of a separator just found that are still to be passed over. Python raises
  \<^verbatim>\<open>ValueError\<close> on an empty separator; both calls in the source pass a literal, so the
  model is only used with \<open>sep \<noteq> []\<close>.
\<close>

fun split_from :: "string \<Rightarrow> nat \<Rightarrow> string \<Rightarrow> string \<Rightarrow> string list" where
  "split_from sep skip cur [] = [cur]"
| "split_from sep skip cur (c # cs) =
     (if 0 < skip then split_from sep (skip - 1) cur cs
      else if prefix sep (c # cs) then cur # split_from sep (length sep - 1) [] cs
      else split_from sep 0 (cur @ [c]) cs)"

definition py_split :: "string \<Rightarrow> string \<Rightarrow> string list" where
  "py_split sep s = split_from sep 0 [] s"

text \<open>
  \<^verbatim>\<open>s.split()\<close>: the maximal runs of non-whitespace characters. \<^verbatim>\<open>str.isspace\<close> holds on
  ASCII for the codes 9 to 13, 28 to 31 and 32.
\<close>

definition is_space :: "char \<Rightarrow> bool" where
  "is_space c =
     (let n = (of_char c :: nat) in (9 \<le> n \<and> n \<le> 13) \<or> (28 \<le> n \<and> n \<le> 32))"

fun words_from :: "string \<Rightarrow> string \<Rightarrow> string list" where
  "words_from cur [] = (if cur = [] then [] else [cur])"
| "words_from cur (c # cs) =
     (if is_space c then (if cur = [] then words_from [] cs else cur # words_from [] cs)
      else words_from (cur @ [c]) cs)"

definition split_ws :: "string \<Rightarrow> string list" where
  "split_ws s = words_from [] s"

section \<open>Placeholder patterns\<close>

text \<open>
  The configured placeholder patterns are regular expressions of two shapes only: a literal
  between word boundaries (\<^verbatim>\<open>r'\bTBD\b'\<close>) and a bare literal (\<^verbatim>\<open>r'PLACEHOLDER'\<close>), the literal
  made of letters and blanks. \<^verbatim>\<open>re.findall(regex, text, re.IGNORECASE)\<close> returns the matched
  pieces of the text from left to right, each search resuming where the last match ended.
\<close>

datatype keyword_regex = Bounded string | Plain string

fun literal :: "keyword_regex \<Rightarrow> string" where
  "literal (Bounded w) = w"
| "literal (Plain w) = w"

text \<open>\<^verbatim>\<open>\w\<close> on ASCII: letters, digits and the underscore.\<close>

definition is_word_char :: "char \<Rightarrow> bool" where
  "is_word_char c =
     (let n = (of_char c :: nat)
      in (48 \<le> n \<and> n \<le> 57) \<or> (65 \<le> n \<and> n \<le> 90) \<or> n = 95 \<or> (97 \<le> n \<and> n \<le> 122))"

fun is_word :: "char option \<Rightarrow> bool" where
  "is_word None = False"
| "is_word (Some c) = is_word_char c"

fun first_char :: "string \<Rightarrow> char option" where
  "first_char [] = None"
| "first_char (c # cs) = Some c"

text \<open>
  \<^verbatim>\<open>\b\<close> holds between the character before and the character after when exactly one of them
  is a word character; the start and the end of the text count as non-word.
\<close>

definition boundary :: "char option \<Rightarrow> char option \<Rightarrow> bool" where
  "boundary prev after = (is_word prev \<noteq> is_word after)"

text \<open>Does the pattern match at the start of \<open>s\<close>, the text in front of it ending in \<open>prev\<close>?\<close>

fun match_at :: "keyword_regex \<Rightarrow> char option \<Rightarrow> string \<Rightarrow> bool" where
  "match_at (Plain w) prev s = prefix (upper w) (upper s)"
| "match_at (Bounded w) prev s =
     (prefix (upper w) (upper s) \<and>
      boundary prev (first_char s) \<and>
      boundary (if w = [] then prev else Some (last (take (length w) s)))
               (first_char (drop (length w) s)))"

fun findall_from :: "keyword_regex \<Rightarrow> nat \<Rightarrow> char option \<Rightarrow> string \<Rightarrow> string list" where
  "findall_from rx skip prev [] = (if skip = 0 \<and> match_at rx prev [] then [[]] else [])"
| "findall_from rx skip prev (c # cs) =
     (if skip = 0 \<and> match_at rx prev (c # cs)
      then take (length (literal rx)) (c # cs)
             # findall_from rx (length (literal rx) - 1) (Some c) cs
      else findall_from rx (skip - 1) (Some c) cs)"

definition findall :: "keyword_regex \<Rightarrow> string \<Rightarrow> string list" where
  "findall rx s = findall_from rx 0 None s"

section \<open>The rule-based checks\<close>

text \<open>
  The two pages run the same loops over the mandatory sections and over the paragraphs and
  differ in the dictionary they append, which is the parameter \<open>mk\<close>. \<open>defects\<close> is the list
  the source appends to.
\<close>

fun check_sections ::
  "(string \<Rightarrow> defect) \<Rightarrow> string list \<Rightarrow> string \<Rightarrow> defect list \<Rightarrow> defect list" where
  "check_sections mk [] full_text defects = defects"
| "check_sections mk (section # rest) full_text defects =
     check_sections mk rest full_text
       (if \<not> sublist (upper section) (upper full_text) then defects @ [mk section]
        else defects)"

text \<open>The inner loop over the patterns, for paragraph number \<open>i\<close> of \<^verbatim>\<open>enumerate\<close>.\<close>

fun check_keywords ::
  "(string \<Rightarrow> nat \<Rightarrow> defect) \<Rightarrow> keyword_regex list \<Rightarrow> nat \<Rightarrow> string \<Rightarrow> defect list
     \<Rightarrow> defect list" where
  "check_keywords mk [] i text defects = defects"
| "check_keywords mk (keyword_regex # rest) i text defects =
     (let matches = findall keyword_regex text
      in check_keywords mk rest i text
           (if matches \<noteq> [] then defects @ [mk (hd matches) i] else defects))"

fun check_placeholders ::
  "(string \<Rightarrow> nat \<Rightarrow> defect) \<Rightarrow> keyword_regex list \<Rightarrow> nat \<Rightarrow> string list \<Rightarrow> defect list
     \<Rightarrow> defect list" where
  "check_placeholders mk keywords i [] defects = defects"
| "check_placeholders mk keywords i (paragraph # rest) defects =
     check_placeholders mk keywords (Suc i) rest (check_keywords mk keywords i paragraph defects)"

definition paragraph_location :: "nat \<Rightarrow> string" where
  "paragraph_location i = ''Paragraph '' @ str_nat (i + 1)"

subsection \<open>\<^verbatim>\<open>pages/Static_Testing.py\<close>\<close>

definition ST_MANDATORY_SECTIONS :: "string list" where
  "ST_MANDATORY_SECTIONS =
     [''Introduction'', ''Scope of Work'', ''Assumptions'', ''Acceptance Criteria'',
      ''Out of Scope'']"

definition ST_PLACEHOLDER_KEYWORDS :: "keyword_regex list" where
  "ST_PLACEHOLDER_KEYWORDS =
     [Bounded ''TBD'', Bounded ''TBC'', Bounded ''WIP'', Bounded ''TODO'',
      Plain ''PLACEHOLDER'', Plain ''INSERT TEXT HERE'']"

definition ST_MAX_WORDS :: nat where
  "ST_MAX_WORDS = 150"

definition ST_file_error :: "string \<Rightarrow> defect" where
  "ST_file_error e =
     \<lparr>Defect_Type = ''File Error'',
      Description =
        ''Could not process document. Ensure it is a valid .docx file. Error: '' @ e,
      Location = ''N/A'', Severity = ''Critical''\<rparr>"

definition ST_structure_defect :: "string \<Rightarrow> defect" where
  "ST_structure_defect section =
     \<lparr>Defect_Type = ''Structure/Completeness'',
      Description = ''Missing mandatory section header: '' @ squote @ section @ squote,
      Location = ''Document Structure'', Severity = ''High''\<rparr>"

definition ST_placeholder_defect :: "string \<Rightarrow> nat \<Rightarrow> defect" where
  "ST_placeholder_defect m i =
     \<lparr>Defect_Type = ''Content Placeholder'',
      Description = ''Placeholder found: '' @ squote @ m @ squote @ ''. Text requires update.'',
      Location = paragraph_location i, Severity = ''Medium''\<rparr>"

definition ST_readability_defect :: "nat \<Rightarrow> nat \<Rightarrow> nat \<Rightarrow> defect" where
  "ST_readability_defect word_count max_words i =
     \<lparr>Defect_Type = ''Readability'',
      Description =
        ''Paragraph contains '' @ str_nat word_count @ '' words (limit is '' @
        str_nat max_words @ ''). Consider splitting.'',
      Location = paragraph_location i, Severity = ''Low''\<rparr>"

definition ST_quality_status :: defect where
  "ST_quality_status =
     \<lparr>Defect_Type = ''Quality Status'',
      Description = ''No static defects found based on current checks!'',
      Location = ''N/A'', Severity = ''Success''\<rparr>"

fun check_readability :: "nat \<Rightarrow> nat \<Rightarrow> string list \<Rightarrow> defect list \<Rightarrow> defect list" where
  "check_readability max_words i [] defects = defects"
| "check_readability max_words i (paragraph # rest) defects =
     (let word_count = length (split_ws paragraph)
      in check_readability max_words (Suc i) rest
           (if word_count > max_words
            then defects @ [ST_readability_defect word_count max_words i] else defects))"

text \<open>
  \<^verbatim>\<open>analyze_document\<close> of \<^verbatim>\<open>Static_Testing.py\<close>, with the three module constants as
  parameters, and at their values in the source.
\<close>

definition ST_analyze_document_with ::
  "string list \<Rightarrow> keyword_regex list \<Rightarrow> nat \<Rightarrow> doc_file \<Rightarrow> defect list" where
  "ST_analyze_document_with sections keywords max_words doc_file =
     (case doc_file of
        Inl e \<Rightarrow> [ST_file_error e]
      | Inr paragraphs \<Rightarrow>
          (let doc_content_string = join newline paragraphs;
               defects1 = check_sections ST_structure_defect sections doc_content_string [];
               defects2 = check_placeholders ST_placeholder_defect keywords 0 paragraphs defects1;
               defects3 = check_readability max_words 0 paragraphs defects2
           in if defects3 = [] then [ST_quality_status] else defects3))"

definition ST_analyze_document :: "doc_file \<Rightarrow> defect list" where
  "ST_analyze_document =
     ST_analyze_document_with ST_MANDATORY_SECTIONS ST_PLACEHOLDER_KEYWORDS ST_MAX_WORDS"

subsection \<open>\<^verbatim>\<open>pages/Static_Testing_Agent_v1.py\<close>: \<^verbatim>\<open>rule_based_analysis\<close>\<close>

definition MANDATORY_SECTIONS :: "string list" where
  "MANDATORY_SECTIONS =
     [''Introduction'', ''Scope of Work'', ''Assumptions'', ''Acceptance Criteria'',
      ''Out of Scope'', ''Header/Footer Validation'', ''Mandatory/Optional field'']"

definition PLACEHOLDER_KEYWORDS :: "keyword_regex list" where
  "PLACEHOLDER_KEYWORDS =
     [Bounded ''TBD'', Bounded ''TBC'', Bounded ''WIP'', Bounded ''TODO'',
      Plain ''PLACEHOLDER'']"

definition structure_defect :: "string \<Rightarrow> defect" where
  "structure_defect section =
     \<lparr>Defect_Type = ''Structure/Completeness'',
      Description =
        ''Missing mandatory section header: '' @ squote @ section @ squote @
        ''. This is a severe structural defect.'',
      Location = ''Document Structure'', Severity = ''High''\<rparr>"

definition placeholder_defect :: "string \<Rightarrow> nat \<Rightarrow> defect" where
  "placeholder_defect m i =
     \<lparr>Defect_Type = ''Content Placeholder'',
      Description =
        ''Found hardcoded placeholder '' @ squote @ m @ squote @
        ''. Must be resolved before submission.'',
      Location = paragraph_location i, Severity = ''Medium''\<rparr>"

definition rule_based_analysis_with ::
  "string list \<Rightarrow> keyword_regex list \<Rightarrow> document \<Rightarrow> defect list" where
  "rule_based_analysis_with sections keywords document =
     (let full_text = join newline document;
          defects1 = check_sections structure_defect sections full_text []
      in check_placeholders placeholder_defect keywords 0 document defects1)"

definition rule_based_analysis :: "document \<Rightarrow> defect list" where
  "rule_based_analysis = rule_based_analysis_with MANDATORY_SECTIONS PLACEHOLDER_KEYWORDS"

section \<open>\<^verbatim>\<open>pages/Static_Testing_Agent_v1.py\<close>: the agent and the summary report\<close>

text \<open>
  \<^verbatim>\<open>llm_based_analysis\<close> is a simulation in the source: it parses a fixed JSON text of three
  findings, appends a fourth one when a goal is given, and sends the list through
  \<^verbatim>\<open>json.dumps\<close> and \<^verbatim>\<open>json.loads\<close>, which give back the same list of dictionaries of
  strings. The list is always a list, so the \<^verbatim>\<open>except\<close> branch that would return an
  \<^verbatim>\<open>'LLM Error (Simulated)'\<close> entry is never taken. The document text is not looked at.
\<close>

definition mock_list :: "defect list" where
  "mock_list =
     [\<lparr>Defect_Type = ''Clarity'',
       Description = ''The description of the 'Network_Owner' field in the Scope section is ambiguous. Clarify if it refers to the physical or logical owner.'',
       Location = ''Scope of Work, Paragraph 3'', Severity = ''High''\<rparr>,
      \<lparr>Defect_Type = ''Tone'',
       Description = ''The Conclusion section uses overly casual language ('We think this is fine'). Replace with professional equivalents.'',
       Location = ''Conclusion'', Severity = ''Low''\<rparr>,
      \<lparr>Defect_Type = ''Consistency'',
       Description = ''The acronym 'FDD' is used without definition in the Introduction section.'',
       Location = ''Introduction'', Severity = ''Medium''\<rparr>]"

definition goal_defect :: "string \<Rightarrow> defect" where
  "goal_defect analysis_goal =
     \<lparr>Defect_Type = ''Custom Goal Check'',
      Description =
        ''The Agent focused on the custom goal: '' @ squote @ analysis_goal @ squote @
        ''. Found that specific data types (e.g., date formats) are not compliant with internal standards.'',
      Location = ''Data Fields Appendix'', Severity = ''High''\<rparr>"

definition llm_based_analysis :: "string \<Rightarrow> string \<Rightarrow> defect list" where
  "llm_based_analysis doc_content analysis_goal =
     (if analysis_goal \<noteq> [] then mock_list @ [goal_defect analysis_goal] else mock_list)"

definition content_length_defect :: defect where
  "content_length_defect =
     \<lparr>Defect_Type = ''Content Length'',
      Description = ''Document content is too short (< 50 characters) for meaningful analysis.'',
      Location = ''N/A'', Severity = ''Medium''\<rparr>"

definition critical_fail_row :: "string \<Rightarrow> report_row" where
  "critical_fail_row e =
     \<lparr>File_Name = Some ''N/A'', Pattern = ''File Loading'',
      Structure_Element = ''File Loading'', Test_Result = ''Critical Fail'',
      Remarks = ''Could not process document. Ensure it is a valid .docx file. Error: '' @ e\<rparr>"

subsection \<open>Check 1: mandatory sections\<close>

text \<open>
  \<^verbatim>\<open>d['Description'].split("header: '")[1].split("'. This is")[0]\<close>: the index 1 raises
  \<^verbatim>\<open>IndexError\<close> when the description does not hold the first marker.
\<close>

definition section_name :: "string \<Rightarrow> py_error + string" where
  "section_name description =
     (case py_split (''header: '' @ squote) description of
        a # b # rest \<Rightarrow>
          (case py_split (squote @ ''. This is'') b of
             x # xs \<Rightarrow> Inr x
           | [] \<Rightarrow> Inl IndexError)
      | _ \<Rightarrow> Inl IndexError)"

fun section_names :: "defect list \<Rightarrow> py_error + string list" where
  "section_names [] = Inr []"
| "section_names (d # ds) =
     (case section_name (Description d) of
        Inl e \<Rightarrow> Inl e
      | Inr n \<Rightarrow> (case section_names ds of Inl e \<Rightarrow> Inl e | Inr ns \<Rightarrow> Inr (n # ns)))"

definition mandatory_sections_row :: "defect list \<Rightarrow> py_error + report_row" where
  "mandatory_sections_row rule_defects =
     (let missing_sections =
            filter (\<lambda>d. Defect_Type d = ''Structure/Completeness'') rule_defects
      in if missing_sections \<noteq> []
         then (case section_names missing_sections of
                 Inl e \<Rightarrow> Inl e
               | Inr names \<Rightarrow>
                   Inr \<lparr>File_Name = None, Pattern = ''Document Structure'',
                        Structure_Element = ''Mandatory Sections'', Test_Result = ''Fail'',
                        Remarks = ''Missing sections: '' @ join '', '' names\<rparr>)
         else Inr \<lparr>File_Name = None, Pattern = ''Document Structure'',
                   Structure_Element = ''Mandatory Sections'', Test_Result = ''Pass'',
                   Remarks = ''All mandatory sections are present.''\<rparr>)"

subsection \<open>Check 2: placeholder keywords\<close>

definition placeholder_row :: "defect list \<Rightarrow> report_row" where
  "placeholder_row rule_defects =
     (let placeholder_defects =
            filter (\<lambda>d. Defect_Type d = ''Content Placeholder'') rule_defects
      in if placeholder_defects \<noteq> []
         then \<lparr>File_Name = None, Pattern = ''Content Quality'',
               Structure_Element = ''Placeholder Keywords'', Test_Result = ''Fail'',
               Remarks =
                 ''Found '' @ str_nat (length placeholder_defects) @
                 '' hardcoded placeholders (TBD, WIP, etc.). Fix before finalizing.''\<rparr>
         else \<lparr>File_Name = None, Pattern = ''Content Quality'',
               Structure_Element = ''Placeholder Keywords'', Test_Result = ''Pass'',
               Remarks = ''No hardcoded placeholders found.''\<rparr>)"

subsection \<open>Check 3: qualitative findings\<close>

definition qualitative_rows :: "defect list \<Rightarrow> report_row list" where
  "qualitative_rows llm_defects =
     (let qualitative_defects =
            filter (\<lambda>d. Defect_Type d \<notin>
                          set [''Custom Goal Check'', ''LLM Error (Simulated)'', ''Content Length''])
                   llm_defects
      in if list_ex (\<lambda>d. Severity d \<in> set [''High'', ''Critical'']) qualitative_defects
         then [\<lparr>File_Name = None, Pattern = ''Qualitative Analysis'',
                 Structure_Element = ''Clarity & Consistency'', Test_Result = ''Fail'',
                 Remarks =
                   ''Found '' @ str_nat (length qualitative_defects) @
                   '' qualitative defects. High severity issues detected in Clarity, Tone, or Consistency.''\<rparr>]
         else if list_ex (\<lambda>d. Severity d = ''Medium'') qualitative_defects
         then [\<lparr>File_Name = None, Pattern = ''Qualitative Analysis'',
                 Structure_Element = ''Clarity & Consistency'',
                 Test_Result = ''Pass w/ Warnings'',
                 Remarks =
                   ''Found '' @ str_nat (length qualitative_defects) @
                   '' qualitative defects. Review Medium severity issues found by the Agent.''\<rparr>]
         else if \<not> list_ex (\<lambda>d. Severity d \<in> set [''Medium'', ''High'', ''Critical''])
                           qualitative_defects \<and>
                 filter (\<lambda>d. Defect_Type d = ''Content Length'') llm_defects = []
         then [\<lparr>File_Name = None, Pattern = ''Qualitative Analysis'',
                 Structure_Element = ''Clarity & Consistency'', Test_Result = ''Pass'',
                 Remarks =
                   ''Qualitative content (clarity, tone, consistency) appears high quality.''\<rparr>]
         else [])"

subsection \<open>Check 4: custom goal\<close>

definition goal_element_name :: "string \<Rightarrow> string" where
  "goal_element_name analysis_goal =
     (if length analysis_goal > 40 then ''Custom Goal: '' @ take 40 analysis_goal @ ''...''
      else ''Custom Goal: '' @ analysis_goal)"

definition custom_goal_rows :: "defect list \<Rightarrow> string \<Rightarrow> report_row list" where
  "custom_goal_rows llm_defects analysis_goal =
     (let custom_goal_defects =
            filter (\<lambda>d. Defect_Type d = ''Custom Goal Check'') llm_defects
      in if analysis_goal \<noteq> []
         then (case custom_goal_defects of
                 d # ds \<Rightarrow>
                   [\<lparr>File_Name = None, Pattern = ''Custom Compliance'',
                     Structure_Element = goal_element_name analysis_goal,
                     Test_Result = ''Fail'', Remarks = Description d\<rparr>]
               | [] \<Rightarrow>
                   [\<lparr>File_Name = None, Pattern = ''Custom Compliance'',
                     Structure_Element = goal_element_name analysis_goal,
                     Test_Result = ''Pass'',
                     Remarks =
                       ''Document meets the custom analysis goal: '' @ dquote @
                       analysis_goal @ dquote @ ''.''\<rparr>])
         else [])"

subsection \<open>Check 5: tool status\<close>

definition tool_status_rows :: "defect list \<Rightarrow> report_row list" where
  "tool_status_rows llm_defects =
     (let llm_errors =
            filter (\<lambda>d. Defect_Type d = ''LLM Error (Simulated)'' \<or>
                         Defect_Type d = ''Content Length'') llm_defects
      in case llm_errors of
           d # ds \<Rightarrow>
             [\<lparr>File_Name = None, Pattern = ''Tool Status'', Structure_Element = ''LLM Agent'',
               Test_Result = ''Critical Fail'', Remarks = Description d\<rparr>]
         | [] \<Rightarrow> [])"

subsection \<open>The consolidation step and \<^verbatim>\<open>analyze_document\<close>\<close>

text \<open>
  Step 3 of \<^verbatim>\<open>analyze_document\<close> (from \<^verbatim>\<open>report_rows = []\<close> to the \<^verbatim>\<open>return\<close>) as a
  function of the three values it reads: the two defect lists and the goal.
\<close>

definition consolidate ::
  "defect list \<Rightarrow> defect list \<Rightarrow> string \<Rightarrow> py_error + (report_row list \<times> defect list)" where
  "consolidate rule_defects llm_defects analysis_goal =
     (case mandatory_sections_row rule_defects of
        Inl e \<Rightarrow> Inl e
      | Inr row1 \<Rightarrow>
          (let report_rows =
                 [row1, placeholder_row rule_defects] @ qualitative_rows llm_defects @
                 custom_goal_rows llm_defects analysis_goal @ tool_status_rows llm_defects;
               all_defects =
                 rule_defects @
                 filter (\<lambda>d. Defect_Type d \<noteq> ''LLM Error (Simulated)'' \<and>
                              Defect_Type d \<noteq> ''Content Length'') llm_defects
           in Inr (report_rows, all_defects)))"

definition analyze_document ::
  "doc_file \<Rightarrow> string \<Rightarrow> py_error + (report_row list \<times> defect list)" where
  "analyze_document doc_file analysis_goal =
     (case doc_file of
        Inl e \<Rightarrow> Inr ([critical_fail_row e], [])
      | Inr document \<Rightarrow>
          (let full_text = join newline document;
               rule_defects = rule_based_analysis document;
               llm_defects =
                 (if length full_text > 50 then llm_based_analysis full_text analysis_goal
                  else [content_length_defect])
           in consolidate rule_defects llm_defects analysis_goal))"

text \<open>
  The defects a summary row is derived from, by the \<^verbatim>\<open>'Pattern'\<close> of the row: the list
  comprehensions of the five checks.
\<close>

definition category_defects :: "string \<Rightarrow> defect list \<Rightarrow> defect list \<Rightarrow> defect list" where
  "category_defects pattern rule_defects llm_defects =
     (if pattern = ''Document Structure''
      then filter (\<lambda>d. Defect_Type d = ''Structure/Completeness'') rule_defects
      else if pattern = ''Content Quality''
      then filter (\<lambda>d. Defect_Type d = ''Content Placeholder'') rule_defects
      else if pattern = ''Qualitative Analysis''
      then filter (\<lambda>d. Defect_Type d \<notin>
                          set [''Custom Goal Check'', ''LLM Error (Simulated)'', ''Content Length''])
                  llm_defects
      else if pattern = ''Custom Compliance''
      then filter (\<lambda>d. Defect_Type d = ''Custom Goal Check'') llm_defects
      else if pattern = ''Tool Status''
      then filter (\<lambda>d. Defect_Type d = ''LLM Error (Simulated)'' \<or>
                        Defect_Type d = ''Content Length'') llm_defects
      else [])"

definition results_for :: "string \<Rightarrow> report_row list \<Rightarrow> string list" where
  "results_for pattern rows = map Test_Result (filter (\<lambda>r. Pattern r = pattern) rows)"

section \<open>Properties of the summary report\<close>

lemma mandatory_sections_row_result:
  assumes "mandatory_sections_row rule_defects = Inr row"
  shows "Pattern row = ''Document Structure'' \<and>
         Test_Result row =
           (if filter (\<lambda>d. Defect_Type d = ''Structure/Completeness'') rule_defects = []
            then ''Pass'' else ''Fail'')"
  using assms
  by (auto simp: mandatory_sections_row_def Let_def split: if_splits sum.splits)

lemma placeholder_row_result:
  "Pattern (placeholder_row rule_defects) = ''Content Quality'' \<and>
   Test_Result (placeholder_row rule_defects) =
     (if filter (\<lambda>d. Defect_Type d = ''Content Placeholder'') rule_defects = []
      then ''Pass'' else ''Fail'')"
  by (simp add: placeholder_row_def Let_def)

lemma qualitative_rows_pattern:
  "r \<in> set (qualitative_rows llm_defects) \<Longrightarrow> Pattern r = ''Qualitative Analysis''"
  by (auto simp: qualitative_rows_def Let_def split: if_splits)

lemma custom_goal_rows_pattern:
  "r \<in> set (custom_goal_rows llm_defects g) \<Longrightarrow> Pattern r = ''Custom Compliance''"
  by (auto simp: custom_goal_rows_def Let_def split: if_splits list.splits)

lemma tool_status_rows_pattern:
  "r \<in> set (tool_status_rows llm_defects) \<Longrightarrow> Pattern r = ''Tool Status''"
  by (auto simp: tool_status_rows_def Let_def split: if_splits list.splits)

lemma consolidate_Inr:
  assumes "consolidate rule_defects llm_defects g = Inr (rows, ds)"
  obtains row1 where "mandatory_sections_row rule_defects = Inr row1"
    and "rows = [row1, placeholder_row rule_defects] @ qualitative_rows llm_defects @
                custom_goal_rows llm_defects g @ tool_status_rows llm_defects"
    and "ds = rule_defects @
              filter (\<lambda>d. Defect_Type d \<noteq> ''LLM Error (Simulated)'' \<and>
                           Defect_Type d \<noteq> ''Content Length'') llm_defects"
  using assms by (auto simp: consolidate_def Let_def split: sum.splits)



text \<open>
  Claim C6. When loading the document fails, \<^verbatim>\<open>analyze_document\<close> returns at once: the
  report is the single row of the failed load, with the result \<^verbatim>\<open>'Critical Fail'\<close>, and the
  defect list is empty, whatever the goal. None of the rows or defects of the scans appears.
\<close>

theorem load_failure_short_circuits:
  "analyze_document (Inl e) analysis_goal =
     Inr ([\<lparr>File_Name = Some ''N/A'', Pattern = ''File Loading'',
            Structure_Element = ''File Loading'', Test_Result = ''Critical Fail'',
            Remarks =
              ''Could not process document. Ensure it is a valid .docx file. Error: '' @ e\<rparr>],
          [])"
  by (simp add: analyze_document_def critical_fail_row_def)





lemma qualitative_rows_result:
  assumes "r \<in> set (qualitative_rows llm_defects)"
  shows "Test_Result r =
           (let qd = filter (\<lambda>d. Defect_Type d \<notin>
                          set [''Custom Goal Check'', ''LLM Error (Simulated)'', ''Content Length''])
                       llm_defects
            in if list_ex (\<lambda>d. Severity d \<in> set [''High'', ''Critical'']) qd then ''Fail''
               else if list_ex (\<lambda>d. Severity d = ''Medium'') qd then ''Pass w/ Warnings''
               else ''Pass'')"
  using assms by (auto simp: qualitative_rows_def Let_def split: if_splits)

lemma custom_goal_rows_result:
  assumes "r \<in> set (custom_goal_rows llm_defects g)"
  shows "Test_Result r =
           (if filter (\<lambda>d. Defect_Type d = ''Custom Goal Check'') llm_defects = []
            then ''Pass'' else ''Fail'')"
  using assms by (auto simp: custom_goal_rows_def Let_def split: if_splits list.splits)

lemma tool_status_rows_result:
  assumes "r \<in> set (tool_status_rows llm_defects)"
  shows "Test_Result r = ''Critical Fail''"
  using assms by (auto simp: tool_status_rows_def Let_def split: list.splits)

lemma consolidate_row_cases:
  assumes "consolidate rule_defects llm_defects g = Inr (rows, ds)" and "r \<in> set rows"
  obtains
    (sections) "mandatory_sections_row rule_defects = Inr r"
  | (placeholder) "r = placeholder_row rule_defects"
  | (qualitative) "r \<in> set (qualitative_rows llm_defects)"
  | (custom) "r \<in> set (custom_goal_rows llm_defects g)"
  | (tool) "r \<in> set (tool_status_rows llm_defects)"
proof -
  from assms(1) obtain row1 where "mandatory_sections_row rule_defects = Inr row1"
    and "rows = [row1, placeholder_row rule_defects] @ qualitative_rows llm_defects @
                custom_goal_rows llm_defects g @ tool_status_rows llm_defects"
    by (rule consolidate_Inr)
  with assms(2) that show thesis by auto
qed

lemma list_ex_filter_nonempty: "list_ex P (filter Q xs) \<Longrightarrow> filter Q xs \<noteq> []"
  by (cases "filter Q xs") simp_all

text \<open>
  Claim C7. Worst case wins: a summary row whose category holds a defect of severity
  \<^verbatim>\<open>'High'\<close> or \<^verbatim>\<open>'Critical'\<close> has neither the result \<^verbatim>\<open>'Pass'\<close> nor
  \<^verbatim>\<open>'Pass w/ Warnings'\<close>.
\<close>

theorem worst_case_wins:
  assumes "consolidate rule_defects llm_defects analysis_goal = Inr (rows, ds)"
    and "r \<in> set rows"
    and "list_ex (\<lambda>d. Severity d = ''High'' \<or> Severity d = ''Critical'')
           (category_defects (Pattern r) rule_defects llm_defects)"
  shows "Test_Result r \<noteq> ''Pass'' \<and> Test_Result r \<noteq> ''Pass w/ Warnings''"
  using assms(1,2)
proof (cases rule: consolidate_row_cases)
  case sections
  have p: "Pattern r = ''Document Structure''"
    using mandatory_sections_row_result [OF sections] by simp
  from assms(3) have "filter (\<lambda>d. Defect_Type d = ''Structure/Completeness'') rule_defects \<noteq> []"
    unfolding p category_defects_def by (simp add: list_ex_filter_nonempty)
  with mandatory_sections_row_result [OF sections] show ?thesis by simp
next
  case placeholder
  have p: "Pattern r = ''Content Quality''"
    using placeholder placeholder_row_result by simp
  from assms(3) have "filter (\<lambda>d. Defect_Type d = ''Content Placeholder'') rule_defects \<noteq> []"
    unfolding p category_defects_def by (simp add: list_ex_filter_nonempty)
  with placeholder placeholder_row_result [of rule_defects] show ?thesis by simp
next
  case qualitative
  have p: "Pattern r = ''Qualitative Analysis''"
    using qualitative by (rule qualitative_rows_pattern)
  from assms(3) have "list_ex (\<lambda>d. Severity d \<in> set [''High'', ''Critical''])
      (filter (\<lambda>d. Defect_Type d \<notin>
                 set [''Custom Goal Check'', ''LLM Error (Simulated)'', ''Content Length''])
              llm_defects)"
    unfolding p category_defects_def by (simp add: list_ex_iff)
  with qualitative_rows_result [OF qualitative] show ?thesis by (simp add: Let_def)
next
  case custom
  have p: "Pattern r = ''Custom Compliance''"
    using custom by (rule custom_goal_rows_pattern)
  from assms(3) have "filter (\<lambda>d. Defect_Type d = ''Custom Goal Check'') llm_defects \<noteq> []"
    unfolding p category_defects_def by (simp add: list_ex_filter_nonempty)
  with custom_goal_rows_result [OF custom] show ?thesis by simp
next
  case tool
  from tool_status_rows_result [OF tool] show ?thesis by simp
qed

text \<open>
  Claim C9. The consolidation step reads the two defect lists and the goal and nothing else,
  so two runs on the same lists and goal return the same rows in the same order.
\<close>

theorem consolidate_deterministic:
  assumes "consolidate rule_defects llm_defects analysis_goal = Inr (rows1, ds1)"
    and "consolidate rule_defects llm_defects analysis_goal = Inr (rows2, ds2)"
  shows "rows1 = rows2"
  using assms by simp


section \<open>Properties of the rule-based checks\<close>

lemma check_sections_eq:
  "check_sections mk sections full_text defects =
     defects @ map mk (filter (\<lambda>s. \<not> sublist (upper s) (upper full_text)) sections)"
  by (induction sections arbitrary: defects) simp_all

lemma check_keywords_eq:
  "check_keywords mk kws i text defects =
     defects @ map (\<lambda>rx. mk (hd (findall rx text)) i)
                   (filter (\<lambda>rx. findall rx text \<noteq> []) kws)"
  by (induction kws arbitrary: defects) (simp_all add: Let_def)

lemma check_placeholders_eq:
  "check_placeholders mk kws i paragraphs defects =
     defects @ concat (map (\<lambda>(j, p). map (\<lambda>rx. mk (hd (findall rx p)) j)
                                          (filter (\<lambda>rx. findall rx p \<noteq> []) kws))
                           (enumerate i paragraphs))"
  by (induction paragraphs arbitrary: i defects) (simp_all add: check_keywords_eq)

lemma check_readability_eq:
  "check_readability max_words i paragraphs defects =
     defects @ concat (map (\<lambda>(j, p). if max_words < length (split_ws p)
                                     then [ST_readability_defect (length (split_ws p)) max_words j]
                                     else [])
                           (enumerate i paragraphs))"
  by (induction paragraphs arbitrary: i defects) (simp_all add: Let_def)

lemma filter_concat_enumerate:
  assumes "\<And>j p d. d \<in> set (F j p) \<Longrightarrow> Q d \<and> key d = loc j" and "inj loc"
  shows "filter (\<lambda>d. Q d \<and> key d = loc k) (concat (map (\<lambda>(j, p). F j p) (enumerate i ps))) =
           (if i \<le> k \<and> k < i + length ps then F k (ps ! (k - i)) else [])"
proof (induction ps arbitrary: i)
  case Nil
  show ?case by auto
next
  case (Cons p ps)
  have same: "filter (\<lambda>d. Q d \<and> key d = loc k) (F i p) = (if k = i then F i p else [])"
  proof (cases "k = i")
    case True
    then show ?thesis using assms(1) by (auto simp: filter_id_conv)
  next
    case False
    then have "loc i \<noteq> loc k" using assms(2) by (auto dest: injD)
    then show ?thesis using assms(1) False by (auto simp: filter_empty_conv)
  qed
  show ?case
  proof (cases "k = i")
    case True
    then show ?thesis using Cons [of "Suc i"] same by simp
  next
    case False
    then show ?thesis using Cons [of "Suc i"] same by (auto simp: Suc_diff_le)
  qed
qed

lemma filter_concat_none:
  assumes "\<And>j p d. d \<in> set (F j p) \<Longrightarrow> \<not> Q d"
  shows "filter Q (concat (map (\<lambda>(j, p). F j p) xs)) = []"
  using assms by (auto simp: filter_empty_conv)

lemma filter_concat_all:
  assumes "\<And>j p d. d \<in> set (F j p) \<Longrightarrow> Q d"
  shows "filter Q (concat (map (\<lambda>(j, p). F j p) xs)) = concat (map (\<lambda>(j, p). F j p) xs)"
  using assms by (auto simp: filter_id_conv)

lemma str_nat_nonempty: "str_nat n \<noteq> []"
  by (subst str_nat.simps) simp

lemma digit_char_inj: "a < 10 \<Longrightarrow> b < 10 \<Longrightarrow> digit_char a = digit_char b \<Longrightarrow> a = b"
proof -
  assume a: "a < 10" and b: "b < 10" and eq: "digit_char a = digit_char b"
  from eq have "(of_char (char_of (48 + a)) :: nat) = of_char (char_of (48 + b))"
    by (simp add: digit_char_def)
  with a b show "a = b" by simp
qed

lemma str_nat_inj: "str_nat n = str_nat m \<Longrightarrow> n = m"
proof (induction n arbitrary: m rule: less_induct)
  case (less n)
  show ?case
  proof (cases "n < 10")
    case n: True
    show ?thesis
    proof (cases "m < 10")
      case True
      with n less.prems show ?thesis
        by (simp add: str_nat.simps [of n] str_nat.simps [of m] digit_char_inj)
    next
      case False
      with n less.prems str_nat_nonempty [of "m div 10"] show ?thesis
        by (simp add: str_nat.simps [of n] str_nat.simps [of m])
    qed
  next
    case n: False
    show ?thesis
    proof (cases "m < 10")
      case True
      with n less.prems str_nat_nonempty [of "n div 10"] show ?thesis
        by (simp add: str_nat.simps [of n] str_nat.simps [of m])
    next
      case False
      with n less.prems have eq: "str_nat (n div 10) = str_nat (m div 10)"
        and d: "digit_char (n mod 10) = digit_char (m mod 10)"
        by (simp_all add: str_nat.simps [of n] str_nat.simps [of m])
      from n have "n div 10 < n" by simp
      from less.IH [OF this eq] have "n div 10 = m div 10" .
      moreover from d have "n mod 10 = m mod 10" by (simp add: digit_char_inj)
      ultimately show ?thesis by (metis div_mult_mod_eq)
    qed
  qed
qed

lemma paragraph_location_inj: "inj paragraph_location"
  by (rule injI) (auto simp: paragraph_location_def dest: str_nat_inj)

lemma rule_based_analysis_with_eq:
  "rule_based_analysis_with sections kws document =
     map structure_defect
         (filter (\<lambda>s. \<not> sublist (upper s) (upper (join newline document))) sections) @
     concat (map (\<lambda>(j, p). map (\<lambda>rx. placeholder_defect (hd (findall rx p)) j)
                                (filter (\<lambda>rx. findall rx p \<noteq> []) kws))
                 (enumerate 0 document))"
  by (simp add: rule_based_analysis_with_def check_sections_eq check_placeholders_eq)

lemma ST_filter:
  assumes "\<not> Q ST_quality_status"
  shows "filter Q (ST_analyze_document_with sections kws max_words (Inr document)) =
           filter Q (map ST_structure_defect
                      (filter (\<lambda>s. \<not> sublist (upper s) (upper (join newline document)))
                              sections)) @
           filter Q (concat (map (\<lambda>(j, p). map (\<lambda>rx. ST_placeholder_defect (hd (findall rx p)) j)
                                              (filter (\<lambda>rx. findall rx p \<noteq> []) kws))
                                 (enumerate 0 document))) @
           filter Q (concat (map (\<lambda>(j, p). if max_words < length (split_ws p)
                                   then [ST_readability_defect (length (split_ws p)) max_words j]
                                   else [])
                                 (enumerate 0 document)))"
  using assms
  by (simp add: ST_analyze_document_with_def Let_def check_sections_eq check_placeholders_eq
        check_readability_eq)

lemma structure_of_rule_based:
  "filter (\<lambda>d. Defect_Type d = ''Structure/Completeness'')
          (rule_based_analysis_with sections kws document) =
     map structure_defect
         (filter (\<lambda>s. \<not> sublist (upper s) (upper (join newline document))) sections)"
proof -
  have a: "filter (\<lambda>d. Defect_Type d = ''Structure/Completeness'') (map structure_defect xs)
             = map structure_defect xs" for xs
    by (simp add: filter_id_conv structure_defect_def)
  have b: "filter (\<lambda>d. Defect_Type d = ''Structure/Completeness'')
             (concat (map (\<lambda>(j, p). map (\<lambda>rx. placeholder_defect (hd (findall rx p)) j)
                                (filter (\<lambda>rx. findall rx p \<noteq> []) kws)) xs)) = []" for xs
    by (rule filter_concat_none) (auto simp: placeholder_defect_def)
  show ?thesis by (simp add: rule_based_analysis_with_eq a b)
qed

lemma structure_of_ST:
  "filter (\<lambda>d. Defect_Type d = ''Structure/Completeness'')
          (ST_analyze_document_with sections kws max_words (Inr document)) =
     map ST_structure_defect
         (filter (\<lambda>s. \<not> sublist (upper s) (upper (join newline document))) sections)"
proof -
  have a: "filter (\<lambda>d. Defect_Type d = ''Structure/Completeness'') (map ST_structure_defect xs)
             = map ST_structure_defect xs" for xs
    by (simp add: filter_id_conv ST_structure_defect_def)
  have b: "filter (\<lambda>d. Defect_Type d = ''Structure/Completeness'')
             (concat (map (\<lambda>(j, p). map (\<lambda>rx. ST_placeholder_defect (hd (findall rx p)) j)
                                (filter (\<lambda>rx. findall rx p \<noteq> []) kws)) xs)) = []" for xs
    by (rule filter_concat_none) (auto simp: ST_placeholder_defect_def)
  have c: "filter (\<lambda>d. Defect_Type d = ''Structure/Completeness'')
             (concat (map (\<lambda>(j, p). if max_words < length (split_ws p)
                           then [ST_readability_defect (length (split_ws p)) max_words j]
                           else []) xs)) = []" for xs
    by (rule filter_concat_none) (auto simp: ST_readability_defect_def split: if_splits)
  note q = ST_filter [where Q = "\<lambda>d. Defect_Type d = ''Structure/Completeness''",
                      of sections kws max_words document]
  show ?thesis using q by (simp add: ST_quality_status_def a b c)
qed

text \<open>
  Claim C4. Among the defects returned, those of type \<^verbatim>\<open>'Structure/Completeness'\<close> are, in
  the order of the configured list, exactly one defect of severity \<^verbatim>\<open>'High'\<close> naming \<open>s\<close> for
  each configured section \<open>s\<close> whose upper-cased name is not a substring of the upper-cased
  full text; there is none when every configured section occurs. This holds for
  \<^verbatim>\<open>rule_based_analysis\<close> of the agent page and for \<^verbatim>\<open>analyze_document\<close> of
  \<^verbatim>\<open>Static_Testing.py\<close>, whatever the configured sections and patterns.
\<close>

theorem missing_sections_exact:
  "filter (\<lambda>d. Defect_Type d = ''Structure/Completeness'')
          (rule_based_analysis_with sections kws document) =
     map (\<lambda>s. \<lparr>Defect_Type = ''Structure/Completeness'',
               Description =
                 ''Missing mandatory section header: '' @ squote @ s @ squote @
                 ''. This is a severe structural defect.'',
               Location = ''Document Structure'', Severity = ''High''\<rparr>)
         (filter (\<lambda>s. \<not> sublist (upper s) (upper (join newline document))) sections) \<and>
   filter (\<lambda>d. Defect_Type d = ''Structure/Completeness'')
          (ST_analyze_document_with sections kws max_words (Inr document)) =
     map (\<lambda>s. \<lparr>Defect_Type = ''Structure/Completeness'',
               Description = ''Missing mandatory section header: '' @ squote @ s @ squote,
               Location = ''Document Structure'', Severity = ''High''\<rparr>)
         (filter (\<lambda>s. \<not> sublist (upper s) (upper (join newline document))) sections) \<and>
   (list_all (\<lambda>s. sublist (upper s) (upper (join newline document))) sections \<longrightarrow>
      filter (\<lambda>d. Defect_Type d = ''Structure/Completeness'')
             (rule_based_analysis_with sections kws document) = [] \<and>
      filter (\<lambda>d. Defect_Type d = ''Structure/Completeness'')
             (ST_analyze_document_with sections kws max_words (Inr document)) = [])"
proof -
  have e: "list_all (\<lambda>s. sublist (upper s) (upper (join newline document))) sections \<Longrightarrow>
           filter (\<lambda>s. \<not> sublist (upper s) (upper (join newline document))) sections = []"
    by (simp add: filter_empty_conv list_all_iff)
  have m1: "structure_defect = (\<lambda>s. \<lparr>Defect_Type = ''Structure/Completeness'',
               Description =
                 ''Missing mandatory section header: '' @ squote @ s @ squote @
                 ''. This is a severe structural defect.'',
               Location = ''Document Structure'', Severity = ''High''\<rparr>)"
    by (rule ext) (simp add: structure_defect_def)
  have m2: "ST_structure_defect = (\<lambda>s. \<lparr>Defect_Type = ''Structure/Completeness'',
               Description = ''Missing mandatory section header: '' @ squote @ s @ squote,
               Location = ''Document Structure'', Severity = ''High''\<rparr>)"
    by (rule ext) (simp add: ST_structure_defect_def)
  show ?thesis
    unfolding structure_of_rule_based structure_of_ST
    using e by (simp add: m1 m2)
qed

lemma placeholders_of_rule_based:
  "filter (\<lambda>d. Defect_Type d = ''Content Placeholder'' \<and> Location d = paragraph_location i)
          (rule_based_analysis_with sections kws document) =
     (if i < length document
      then map (\<lambda>rx. placeholder_defect (hd (findall rx (document ! i))) i)
               (filter (\<lambda>rx. findall rx (document ! i) \<noteq> []) kws)
      else [])"
proof -
  have a: "filter (\<lambda>d. Defect_Type d = ''Content Placeholder'' \<and> Location d = paragraph_location i)
             (map structure_defect xs) = []" for xs
    by (simp add: filter_empty_conv structure_defect_def)
  have b: "filter (\<lambda>d. Defect_Type d = ''Content Placeholder'' \<and> Location d = paragraph_location i)
             (concat (map (\<lambda>(j, p). map (\<lambda>rx. placeholder_defect (hd (findall rx p)) j)
                                (filter (\<lambda>rx. findall rx p \<noteq> []) kws)) (enumerate 0 document))) =
           (if 0 \<le> i \<and> i < 0 + length document
            then map (\<lambda>rx. placeholder_defect (hd (findall rx (document ! (i - 0)))) i)
               (filter (\<lambda>rx. findall rx (document ! (i - 0)) \<noteq> []) kws)
            else [])"
    by (rule filter_concat_enumerate [where
          F = "\<lambda>j p. map (\<lambda>rx. placeholder_defect (hd (findall rx p)) j)
                                (filter (\<lambda>rx. findall rx p \<noteq> []) kws)"])
       (auto simp: placeholder_defect_def paragraph_location_inj)
  show ?thesis by (simp add: rule_based_analysis_with_eq a b)
qed

lemma placeholders_of_ST:
  "filter (\<lambda>d. Defect_Type d = ''Content Placeholder'' \<and> Location d = paragraph_location i)
          (ST_analyze_document_with sections kws max_words (Inr document)) =
     (if i < length document
      then map (\<lambda>rx. ST_placeholder_defect (hd (findall rx (document ! i))) i)
               (filter (\<lambda>rx. findall rx (document ! i) \<noteq> []) kws)
      else [])"
proof -
  have a: "filter (\<lambda>d. Defect_Type d = ''Content Placeholder'' \<and> Location d = paragraph_location i)
             (map ST_structure_defect xs) = []" for xs
    by (simp add: filter_empty_conv ST_structure_defect_def)
  have b: "filter (\<lambda>d. Defect_Type d = ''Content Placeholder'' \<and> Location d = paragraph_location i)
             (concat (map (\<lambda>(j, p). map (\<lambda>rx. ST_placeholder_defect (hd (findall rx p)) j)
                                (filter (\<lambda>rx. findall rx p \<noteq> []) kws)) (enumerate 0 document))) =
           (if 0 \<le> i \<and> i < 0 + length document
            then map (\<lambda>rx. ST_placeholder_defect (hd (findall rx (document ! (i - 0)))) i)
               (filter (\<lambda>rx. findall rx (document ! (i - 0)) \<noteq> []) kws)
            else [])"
    by (rule filter_concat_enumerate [where
          F = "\<lambda>j p. map (\<lambda>rx. ST_placeholder_defect (hd (findall rx p)) j)
                                (filter (\<lambda>rx. findall rx p \<noteq> []) kws)"])
       (auto simp: ST_placeholder_defect_def paragraph_location_inj)
  have c: "filter (\<lambda>d. Defect_Type d = ''Content Placeholder'' \<and> Location d = paragraph_location i)
             (concat (map (\<lambda>(j, p). if max_words < length (split_ws p)
                           then [ST_readability_defect (length (split_ws p)) max_words j]
                           else []) xs)) = []" for xs
    by (rule filter_concat_none) (auto simp: ST_readability_defect_def split: if_splits)
  note q = ST_filter [where Q = "\<lambda>d. Defect_Type d = ''Content Placeholder'' \<and>
                                       Location d = paragraph_location i",
                      of sections kws max_words document]
  show ?thesis using q by (simp add: ST_quality_status_def a b c)
qed

lemma readability_of_ST:
  "filter (\<lambda>d. Defect_Type d = ''Readability'' \<and> Location d = paragraph_location i)
          (ST_analyze_document_with sections kws max_words (Inr document)) =
     (if i < length document \<and> max_words < length (split_ws (document ! i))
      then [ST_readability_defect (length (split_ws (document ! i))) max_words i]
      else [])"
proof -
  have a: "filter (\<lambda>d. Defect_Type d = ''Readability'' \<and> Location d = paragraph_location i)
             (map ST_structure_defect xs) = []" for xs
    by (simp add: filter_empty_conv ST_structure_defect_def)
  have b: "filter (\<lambda>d. Defect_Type d = ''Readability'' \<and> Location d = paragraph_location i)
             (concat (map (\<lambda>(j, p). map (\<lambda>rx. ST_placeholder_defect (hd (findall rx p)) j)
                                (filter (\<lambda>rx. findall rx p \<noteq> []) kws)) xs)) = []" for xs
    by (rule filter_concat_none) (auto simp: ST_placeholder_defect_def)
  have c: "filter (\<lambda>d. Defect_Type d = ''Readability'' \<and> Location d = paragraph_location i)
             (concat (map (\<lambda>(j, p). if max_words < length (split_ws p)
                           then [ST_readability_defect (length (split_ws p)) max_words j]
                           else []) (enumerate 0 document))) =
           (if 0 \<le> i \<and> i < 0 + length document
            then (if max_words < length (split_ws (document ! (i - 0)))
                  then [ST_readability_defect (length (split_ws (document ! (i - 0)))) max_words i]
                  else [])
            else [])"
    by (rule filter_concat_enumerate [where
          F = "\<lambda>j p. if max_words < length (split_ws p)
                           then [ST_readability_defect (length (split_ws p)) max_words j]
                           else []"])
       (auto simp: ST_readability_defect_def paragraph_location_inj split: if_splits)
  note q = ST_filter [where Q = "\<lambda>d. Defect_Type d = ''Readability'' \<and>
                                       Location d = paragraph_location i",
                      of sections kws max_words document]
  show ?thesis using q by (simp add: ST_quality_status_def a b c)
qed

lemma findall_from_nonempty_iff:
  "findall_from rx skip prev s \<noteq> [] \<longleftrightarrow>
     (\<exists>pre post. s = pre @ post \<and> skip \<le> length pre \<and>
        match_at rx (if pre = [] then prev else Some (last pre)) post)"
proof (induction s arbitrary: skip prev)
  case Nil
  show ?case by auto
next
  case (Cons c cs)
  show ?case
  proof (cases "skip = 0 \<and> match_at rx prev (c # cs)")
    case True
    then have "c # cs = [] @ (c # cs) \<and> skip \<le> length ([]::string) \<and>
               match_at rx (if ([]::string) = [] then prev else Some (last [])) (c # cs)"
      by simp
    then have "\<exists>pre post. c # cs = pre @ post \<and> skip \<le> length pre \<and>
        match_at rx (if pre = [] then prev else Some (last pre)) post"
      by blast
    with True show ?thesis by simp
  next
    case False
    have "(\<exists>pre post. c # cs = pre @ post \<and> skip \<le> length pre \<and>
             match_at rx (if pre = [] then prev else Some (last pre)) post) \<longleftrightarrow>
          (\<exists>pre' post. cs = pre' @ post \<and> skip - 1 \<le> length pre' \<and>
             match_at rx (if pre' = [] then Some c else Some (last pre')) post)"
      (is "?L \<longleftrightarrow> ?R")
    proof
      assume ?L
      then obtain pre post where p: "c # cs = pre @ post" "skip \<le> length pre"
        "match_at rx (if pre = [] then prev else Some (last pre)) post" by blast
      show ?R
      proof (cases pre)
        case Nil
        with p False show ?thesis by simp
      next
        case (Cons a pre')
        with p have "cs = pre' @ post" "skip - 1 \<le> length pre'"
          "match_at rx (if pre' = [] then Some c else Some (last pre')) post"
          by (auto split: if_splits)
        then show ?thesis by blast
      qed
    next
      assume ?R
      then obtain pre' post where p: "cs = pre' @ post" "skip - 1 \<le> length pre'"
        "match_at rx (if pre' = [] then Some c else Some (last pre')) post" by blast
      then have "c # cs = (c # pre') @ post" "skip \<le> length (c # pre')"
        "match_at rx (if c # pre' = [] then prev else Some (last (c # pre'))) post"
        by (auto split: if_splits)
      then show ?L by blast
    qed
    then have eq: "?R \<longleftrightarrow> ?L" by (rule sym)
    from False have step:
      "findall_from rx skip prev (c # cs) = findall_from rx (skip - 1) (Some c) cs"
      by auto
    have "findall_from rx skip prev (c # cs) \<noteq> [] \<longleftrightarrow> ?R"
      unfolding step by (rule Cons)
    also note eq
    finally show ?thesis .
  qed
qed

lemma findall_nonempty_iff:
  "findall rx s \<noteq> [] \<longleftrightarrow>
     (\<exists>pre post. s = pre @ post \<and> match_at rx (if pre = [] then None else Some (last pre)) post)"
  by (simp add: findall_def findall_from_nonempty_iff)

text \<open>
  Claim C2. For paragraph number \<open>i\<close> (counted from 0 by \<^verbatim>\<open>enumerate\<close>), the defects of type
  \<^verbatim>\<open>'Content Placeholder'\<close> located at \<^verbatim>\<open>Paragraph i+1\<close> are exactly one defect of severity
  \<^verbatim>\<open>'Medium'\<close> for each configured pattern that \<^verbatim>\<open>re.findall\<close> finds in the paragraph, in
  the order of the patterns: one per pattern however often the pattern occurs (the defect
  quotes the first match), and a separate one for each pattern that matches. By
  \<open>findall_nonempty_iff\<close> a pattern is found exactly when it matches at some position of the
  paragraph. This holds for both pages.
\<close>

theorem one_defect_per_matching_pattern:
  "filter (\<lambda>d. Defect_Type d = ''Content Placeholder'' \<and>
               Location d = ''Paragraph '' @ str_nat (i + 1))
          (rule_based_analysis_with sections kws document) =
     (if i < length document
      then map (\<lambda>rx. \<lparr>Defect_Type = ''Content Placeholder'',
                      Description =
                        ''Found hardcoded placeholder '' @ squote @
                        hd (findall rx (document ! i)) @ squote @
                        ''. Must be resolved before submission.'',
                      Location = ''Paragraph '' @ str_nat (i + 1), Severity = ''Medium''\<rparr>)
               (filter (\<lambda>rx. findall rx (document ! i) \<noteq> []) kws)
      else []) \<and>
   filter (\<lambda>d. Defect_Type d = ''Content Placeholder'' \<and>
               Location d = ''Paragraph '' @ str_nat (i + 1))
          (ST_analyze_document_with sections kws max_words (Inr document)) =
     (if i < length document
      then map (\<lambda>rx. \<lparr>Defect_Type = ''Content Placeholder'',
                      Description =
                        ''Placeholder found: '' @ squote @ hd (findall rx (document ! i)) @
                        squote @ ''. Text requires update.'',
                      Location = ''Paragraph '' @ str_nat (i + 1), Severity = ''Medium''\<rparr>)
               (filter (\<lambda>rx. findall rx (document ! i) \<noteq> []) kws)
      else [])"
  using placeholders_of_rule_based [of i sections kws document]
        placeholders_of_ST [of i sections kws max_words document]
  by (simp add: paragraph_location_def placeholder_defect_def ST_placeholder_defect_def)

text \<open>
  Claim C5. \<^verbatim>\<open>analyze_document\<close> of \<^verbatim>\<open>Static_Testing.py\<close> returns a defect of type
  \<^verbatim>\<open>'Readability'\<close> for paragraph \<open>i\<close>, of severity \<^verbatim>\<open>'Low'\<close>, exactly when the number of
  whitespace-delimited words of the paragraph is greater than the limit, and none when the
  count equals the limit; the limit of the source is 150.
\<close>

theorem paragraph_too_long_iff:
  "filter (\<lambda>d. Defect_Type d = ''Readability'' \<and> Location d = ''Paragraph '' @ str_nat (i + 1))
          (ST_analyze_document_with sections kws max_words (Inr document)) =
     (if i < length document \<and> max_words < length (split_ws (document ! i))
      then [\<lparr>Defect_Type = ''Readability'',
             Description =
               ''Paragraph contains '' @ str_nat (length (split_ws (document ! i))) @
               '' words (limit is '' @ str_nat max_words @ ''). Consider splitting.'',
             Location = ''Paragraph '' @ str_nat (i + 1), Severity = ''Low''\<rparr>]
      else []) \<and>
   ST_analyze_document (Inr document) =
     ST_analyze_document_with ST_MANDATORY_SECTIONS ST_PLACEHOLDER_KEYWORDS 150 (Inr document)"
  using readability_of_ST [of i sections kws max_words document]
  by (simp add: paragraph_location_def ST_readability_defect_def ST_analyze_document_def
        ST_MAX_WORDS_def)

section \<open>Recovering the section name from a description\<close>

lemma split_from_skip:
  "length xs = n \<Longrightarrow> split_from sep n cur (xs @ ys) = split_from sep 0 cur ys"
  by (induction xs arbitrary: n) auto

lemma split_from_no_occurrence:
  assumes "sep \<noteq> []"
  shows "\<not> sublist sep s \<Longrightarrow> split_from sep 0 cur s = [cur @ s]"
proof (induction s arbitrary: cur)
  case Nil
  show ?case by simp
next
  case (Cons c cs)
  from Cons.prems have np: "\<not> prefix sep (c # cs)" and ns: "\<not> sublist sep cs"
    by (simp_all add: sublist_Cons_right)
  from Cons.IH [OF ns, of "cur @ [c]"] np show ?case by simp
qed

lemma split_from_first_occurrence:
  assumes "sep \<noteq> []"
  shows "\<not> sublist sep (a @ butlast sep) \<Longrightarrow>
         split_from sep 0 cur (a @ sep @ b) = (cur @ a) # split_from sep 0 [] b"
proof (induction a arbitrary: cur)
  case Nil
  from assms obtain x xs where sep: "sep = x # xs" by (cases sep) auto
  have "split_from sep 0 cur (sep @ b) = cur # split_from sep (length sep - 1) [] (xs @ b)"
    by (simp add: sep)
  also have "split_from sep (length sep - 1) [] (xs @ b) = split_from sep 0 [] b"
    by (rule split_from_skip) (simp add: sep)
  finally show ?case by simp
next
  case (Cons c as)
  have np: "\<not> prefix sep (c # as @ sep @ b)"
  proof
    assume p: "prefix sep (c # as @ sep @ b)"
    from assms obtain ys y where sep: "sep = ys @ [y]"
      by (cases sep rule: rev_cases) auto
    have q: "prefix ((c # as) @ butlast sep) (c # as @ sep @ b)"
      by (simp add: sep)
    have "length sep \<le> length ((c # as) @ butlast sep)" using assms by simp
    with p q have "prefix sep ((c # as) @ butlast sep)"
      by (rule prefix_length_prefix)
    then have "sublist sep ((c # as) @ butlast sep)"
      by (auto simp: prefix_def)
    with Cons.prems show False by simp
  qed
  from Cons.prems have ns: "\<not> sublist sep (as @ butlast sep)"
    by (simp add: sublist_Cons_right)
  from Cons.IH [OF ns, of "cur @ [c]"] np show ?case by simp
qed

lemma sublist_snoc_free:
  assumes "q \<notin> set t" and "sublist (h @ [q]) (s @ q # t)"
  shows "sublist (h @ [q]) s \<or> suffix h s"
proof -
  from assms(2) obtain pre post where e: "s @ q # t = (pre @ h @ [q]) @ post"
    by (auto simp: sublist_def)
  from append_eq_append_conv2 [THEN iffD1, OF e] obtain us where
    "s = (pre @ h @ [q]) @ us \<and> us @ q # t = post \<or>
     s @ us = pre @ h @ [q] \<and> q # t = us @ post"
    by blast
  then consider "s = (pre @ h @ [q]) @ us"
    | "s @ us = pre @ h @ [q]" "q # t = us @ post"
    by blast
  then show ?thesis
  proof cases
    case 1
    then show ?thesis by (auto simp: sublist_def)
  next
    case 2
    show ?thesis
    proof (cases us)
      case Nil
      with 2 show ?thesis by (auto simp: sublist_def)
    next
      case (Cons u us')
      with 2(2) have u: "u = q" and t: "t = us' @ post" by simp_all
      show ?thesis
      proof (cases us' rule: rev_cases)
        case Nil
        with 2(1) Cons u have "s = pre @ h" by simp
        then show ?thesis by (auto simp: suffix_def)
      next
        case (snoc vs v)
        with 2(1) Cons have "v = q" by simp
        with snoc t assms(1) show ?thesis by simp
      qed
    qed
  qed
qed

lemma sublist_overlap_free:
  assumes "q \<notin> set w" and "\<not> sublist (q # w) s"
  shows "\<not> sublist (q # w) (s @ butlast (q # w))"
proof (cases "w = []")
  case True
  with assms(2) show ?thesis by simp
next
  case False
  then have bl: "butlast (q # w) = q # butlast w" by simp
  have len: "length (butlast w) < length w" using False by simp
  show ?thesis
  proof
    assume "sublist (q # w) (s @ butlast (q # w))"
    then obtain pre post where e: "s @ q # butlast w = pre @ ((q # w) @ post)"
      unfolding bl sublist_def by blast
    from append_eq_append_conv2 [THEN iffD1, OF e] obtain us where
      "s = pre @ us \<and> us @ q # butlast w = (q # w) @ post \<or>
       s @ us = pre \<and> q # butlast w = us @ (q # w) @ post"
      by blast
    then consider "s = pre @ us" "us @ q # butlast w = (q # w) @ post"
      | "s @ us = pre" "q # butlast w = us @ (q # w) @ post"
      by blast
    then show False
    proof cases
      case 1
      show False
      proof (cases us)
        case Nil
        with 1(2) have "butlast w = w @ post" by simp
        then have "length (butlast w) = length (w @ post)" by simp
        with len show False by simp
      next
        case (Cons u us')
        with 1(2) have u: "u = q" and r: "us' @ q # butlast w = w @ post" by simp_all
        from append_eq_append_conv2 [THEN iffD1, OF r] obtain vs where
          "us' = w @ vs \<and> vs @ q # butlast w = post \<or>
           us' @ vs = w \<and> q # butlast w = vs @ post"
          by blast
        then consider "us' = w @ vs"
          | "us' @ vs = w" "q # butlast w = vs @ post"
          by blast
        then show False
        proof cases
          case 1
          with \<open>s = pre @ us\<close> Cons u have "s = pre @ (q # w) @ vs" by simp
          then have "sublist (q # w) s" unfolding sublist_def by blast
          with assms(2) show False by simp
        next
          case 2
          show False
          proof (cases vs)
            case Nil
            with 2 \<open>s = pre @ us\<close> Cons u have "s = pre @ (q # w) @ []" by simp
            then have "sublist (q # w) s" unfolding sublist_def by blast
            with assms(2) show False by simp
          next
            case (Cons v vs')
            with 2 have "v = q" "w = us' @ q # vs'" by auto
            with assms(1) show False by simp
          qed
        qed
      qed
    next
      case 2
      from 2(2) have "length (q # butlast w) = length (us @ (q # w) @ post)" by simp
      with len show False by simp
    qed
  qed
qed

lemma description_parts:
  "Description (structure_defect s) =
     ''Missing mandatory section '' @ (''header: '' @ squote) @
     (s @ (squote @ ''. This is'') @ '' a severe structural defect.'')"
  by (simp add: structure_defect_def squote_def)

lemma first_marker_not_before:
  "\<not> sublist (''header: '' @ squote)
        (''Missing mandatory section '' @ butlast (''header: '' @ squote))"
  by (simp add: squote_def sublist_Cons_right)

lemma section_name_round_trip:
  assumes "\<not> sublist (''header: '' @ squote) s"
    and "\<not> sublist (squote @ ''. This is'') s"
    and "\<not> suffix ''header: '' s"
  shows "section_name (Description (structure_defect s)) = Inr s"
proof -
  let ?sep1 = "''header: '' @ squote" and ?sep2 = "squote @ ''. This is''"
  let ?rest = "s @ ?sep2 @ '' a severe structural defect.''"
  have ne1: "?sep1 \<noteq> []" and ne2: "?sep2 \<noteq> []" by simp_all
  have r: "?rest = s @ CHR 0x27 # ''. This is a severe structural defect.''"
    by (simp add: squote_def)
  have "\<not> sublist (''header: '' @ [CHR 0x27]) (s @ CHR 0x27 # ''. This is a severe structural defect.'')"
  proof
    assume "sublist (''header: '' @ [CHR 0x27]) (s @ CHR 0x27 # ''. This is a severe structural defect.'')"
    then have "sublist (''header: '' @ [CHR 0x27]) s \<or> suffix ''header: '' s"
      by (rule sublist_snoc_free [rotated]) simp
    with assms(1,3) show False by (simp add: squote_def)
  qed
  then have n1: "\<not> sublist ?sep1 ?rest" by (simp add: squote_def)
  have s1: "py_split ?sep1 (Description (structure_defect s)) =
              [''Missing mandatory section '', ?rest]"
    unfolding py_split_def description_parts
    by (simp only: split_from_first_occurrence [OF ne1 first_marker_not_before]
          split_from_no_occurrence [OF ne1 n1] append_Nil)
  have "\<not> sublist (CHR 0x27 # ''. This is'') (s @ butlast (CHR 0x27 # ''. This is''))"
    by (rule sublist_overlap_free) (use assms(2) in \<open>simp_all add: squote_def\<close>)
  then have n2: "\<not> sublist ?sep2 (s @ butlast ?sep2)" by (simp add: squote_def)
  have s2: "py_split ?sep2 ?rest = s # split_from ?sep2 0 [] '' a severe structural defect.''"
    unfolding py_split_def
    by (simp only: split_from_first_occurrence [OF ne2 n2] append_Nil)
  show ?thesis
    by (simp only: section_name_def s1 s2 list.case)
qed

text \<open>
  Claim C10 as stated fails: the section name \<^verbatim>\<open>Page header: \<close> (ending in a blank) holds
  neither marker, yet the closing quote of the description completes the first marker
  inside the name, and the name recovered is \<^verbatim>\<open>Page \<close>.
\<close>

theorem section_name_counterexample:
  "\<not> sublist (''header: '' @ squote) ''Page header: '' \<and>
   \<not> sublist (squote @ ''. This is'') ''Page header: '' \<and>
   section_name (Description (structure_defect ''Page header: '')) = Inr ''Page ''"
  by (simp add: section_name_def structure_defect_def py_split_def squote_def sublist_Cons_right)

lemma section_name_scope_of_work:
  "\<not> sublist (''header: '' @ squote) ''Scope of Work'' \<and>
   \<not> sublist (squote @ ''. This is'') ''Scope of Work'' \<and>
   \<not> suffix ''header: '' ''Scope of Work'' \<and>
   section_name (Description (structure_defect ''Scope of Work'')) = Inr ''Scope of Work''"
proof -
  have h1: "\<not> sublist (''header: '' @ squote) ''Scope of Work''"
    by (simp add: squote_def sublist_Cons_right)
  have h2: "\<not> sublist (squote @ ''. This is'') ''Scope of Work''"
    by (simp add: squote_def sublist_Cons_right)
  have h3: "\<not> suffix ''header: '' ''Scope of Work''"
    by (simp add: suffix_def append_eq_Cons_conv)
  from section_name_round_trip [OF h1 h2 h3] h1 h2 h3 show ?thesis by simp
qed

lemma mandatory_sections_well_formed:
  "list_all (\<lambda>s. \<not> sublist (''header: '' @ squote) s \<and> \<not> sublist (squote @ ''. This is'') s \<and>
                  \<not> suffix ''header: '' s) MANDATORY_SECTIONS"
  by (simp add: MANDATORY_SECTIONS_def squote_def sublist_Cons_right suffix_to_prefix)

lemma section_names_of_structure_defects:
  assumes "list_all (\<lambda>s. \<not> sublist (''header: '' @ squote) s \<and>
                          \<not> sublist (squote @ ''. This is'') s \<and>
                          \<not> suffix ''header: '' s) ss"
  shows "section_names (map structure_defect ss) = Inr ss"
  using assms by (induction ss) (simp_all add: section_name_round_trip)


lemma filter_structure_defects:
  "filter (\<lambda>d. Defect_Type d = ''Structure/Completeness'') (map structure_defect ss) =
     map structure_defect ss"
  by (simp add: filter_id_conv structure_defect_def)

text \<open>
  Claim C10, amended. For section names that hold neither marker and, in addition, do not
  end in \<^verbatim>\<open>header: \<close> (with the blank), the consolidation step splits the description
  written by \<^verbatim>\<open>rule_based_analysis\<close> back into the section name, so the remark of the
  failing \<^verbatim>\<open>'Document Structure'\<close> row lists exactly the missing section names, separated
  by a comma and a blank.
\<close>

theorem missing_sections_remark:
  assumes "list_all (\<lambda>s. \<not> sublist (''header: '' @ squote) s \<and>
                          \<not> sublist (squote @ ''. This is'') s \<and>
                          \<not> suffix ''header: '' s) sections"
  shows "list_all (\<lambda>s. section_name (Description (structure_defect s)) = Inr s) sections \<and>
         (sections = [] \<or>
          mandatory_sections_row (map structure_defect sections) =
            Inr \<lparr>File_Name = None, Pattern = ''Document Structure'',
                 Structure_Element = ''Mandatory Sections'', Test_Result = ''Fail'',
                 Remarks = ''Missing sections: '' @ join '', '' sections\<rparr>)"
proof -
  from assms have a: "list_all (\<lambda>s. section_name (Description (structure_defect s)) = Inr s) sections"
    by (auto simp: list_all_iff section_name_round_trip)
  have b: "mandatory_sections_row (map structure_defect sections) =
            Inr \<lparr>File_Name = None, Pattern = ''Document Structure'',
                 Structure_Element = ''Mandatory Sections'', Test_Result = ''Fail'',
                 Remarks = ''Missing sections: '' @ join '', '' sections\<rparr>"
    if "sections \<noteq> []"
    using that
    by (simp add: mandatory_sections_row_def filter_structure_defects
          section_names_of_structure_defects [OF assms])
  from a b show ?thesis by blast
qed

theorem missing_sections_remark_witness:
  "list_all (\<lambda>s. \<not> sublist (''header: '' @ squote) s \<and>
                  \<not> sublist (squote @ ''. This is'') s \<and>
                  \<not> suffix ''header: '' s) [''Assumptions'', ''Out of Scope''] \<and>
   section_name (Description (structure_defect ''Assumptions'')) = Inr ''Assumptions'' \<and>
   section_name (Description (structure_defect ''Out of Scope'')) = Inr ''Out of Scope'' \<and>
   mandatory_sections_row (map structure_defect [''Assumptions'', ''Out of Scope'']) =
     Inr \<lparr>File_Name = None, Pattern = ''Document Structure'',
          Structure_Element = ''Mandatory Sections'', Test_Result = ''Fail'',
          Remarks = ''Missing sections: Assumptions, Out of Scope''\<rparr>"
proof -
  have h: "list_all (\<lambda>s. \<not> sublist (''header: '' @ squote) s \<and>
                  \<not> sublist (squote @ ''. This is'') s \<and>
                  \<not> suffix ''header: '' s) [''Assumptions'', ''Out of Scope'']"
    by (simp add: squote_def sublist_Cons_right suffix_to_prefix)
  from missing_sections_remark [OF h] h show ?thesis by simp
qed

lemma rule_based_structure_row:
  "\<exists>row. mandatory_sections_row (rule_based_analysis document) = Inr row"
proof -
  let ?missing = "filter (\<lambda>s. \<not> sublist (upper s) (upper (join newline document)))
                         MANDATORY_SECTIONS"
  have f: "filter (\<lambda>d. Defect_Type d = ''Structure/Completeness'') (rule_based_analysis document)
             = map structure_defect ?missing"
    unfolding rule_based_analysis_def by (rule structure_of_rule_based)
  have "list_all (\<lambda>s. \<not> sublist (''header: '' @ squote) s \<and>
                       \<not> sublist (squote @ ''. This is'') s \<and>
                       \<not> suffix ''header: '' s) ?missing"
    using mandatory_sections_well_formed by (simp add: list_all_iff)
  then have "section_names (map structure_defect ?missing) = Inr ?missing"
    by (rule section_names_of_structure_defects)
  then show ?thesis by (simp add: mandatory_sections_row_def f)
qed

lemma analyze_document_returns:
  "\<exists>rows ds. analyze_document doc_file analysis_goal = Inr (rows, ds)"
proof (cases doc_file)
  case (Inl e)
  then show ?thesis by (simp add: analyze_document_def)
next
  case (Inr document)
  from rule_based_structure_row [of document] obtain row
    where "mandatory_sections_row (rule_based_analysis document) = Inr row" ..
  with Inr show ?thesis by (simp add: analyze_document_def consolidate_def Let_def)
qed

section \<open>The report of a loaded document\<close>

lemma filter_by_pattern:
  assumes "\<And>r. r \<in> set xs \<Longrightarrow> Pattern r = q"
  shows "filter (\<lambda>r. Pattern r = p) xs = (if p = q then xs else [])"
  using assms by (auto simp: filter_id_conv filter_empty_conv)

lemma consolidate_results:
  assumes "consolidate rule_defects llm_defects g = Inr (rows, ds)"
  shows "results_for ''Document Structure'' rows =
           [if filter (\<lambda>d. Defect_Type d = ''Structure/Completeness'') rule_defects = []
            then ''Pass'' else ''Fail'']"
    and "results_for ''Content Quality'' rows =
           [if filter (\<lambda>d. Defect_Type d = ''Content Placeholder'') rule_defects = []
            then ''Pass'' else ''Fail'']"
    and "results_for ''Qualitative Analysis'' rows = map Test_Result (qualitative_rows llm_defects)"
    and "results_for ''Custom Compliance'' rows = map Test_Result (custom_goal_rows llm_defects g)"
    and "results_for ''Tool Status'' rows = map Test_Result (tool_status_rows llm_defects)"
proof -
  from assms obtain row1 where r1: "mandatory_sections_row rule_defects = Inr row1"
    and rows: "rows = [row1, placeholder_row rule_defects] @ qualitative_rows llm_defects @
                custom_goal_rows llm_defects g @ tool_status_rows llm_defects"
    by (rule consolidate_Inr)
  note a = mandatory_sections_row_result [OF r1]
  note b = placeholder_row_result [of rule_defects]
  have c: "filter (\<lambda>r. Pattern r = p) (qualitative_rows llm_defects) =
             (if p = ''Qualitative Analysis'' then qualitative_rows llm_defects else [])" for p
    by (rule filter_by_pattern) (rule qualitative_rows_pattern)
  have d: "filter (\<lambda>r. Pattern r = p) (custom_goal_rows llm_defects g) =
             (if p = ''Custom Compliance'' then custom_goal_rows llm_defects g else [])" for p
    by (rule filter_by_pattern) (rule custom_goal_rows_pattern)
  have e: "filter (\<lambda>r. Pattern r = p) (tool_status_rows llm_defects) =
             (if p = ''Tool Status'' then tool_status_rows llm_defects else [])" for p
    by (rule filter_by_pattern) (rule tool_status_rows_pattern)
  show "results_for ''Document Structure'' rows =
           [if filter (\<lambda>d. Defect_Type d = ''Structure/Completeness'') rule_defects = []
            then ''Pass'' else ''Fail'']"
    by (simp add: results_for_def rows a b c d e)
  show "results_for ''Content Quality'' rows =
           [if filter (\<lambda>d. Defect_Type d = ''Content Placeholder'') rule_defects = []
            then ''Pass'' else ''Fail'']"
    by (simp add: results_for_def rows a b c d e)
  show "results_for ''Qualitative Analysis'' rows = map Test_Result (qualitative_rows llm_defects)"
    by (simp add: results_for_def rows a b c d e)
  show "results_for ''Custom Compliance'' rows = map Test_Result (custom_goal_rows llm_defects g)"
    by (simp add: results_for_def rows a b c d e)
  show "results_for ''Tool Status'' rows = map Test_Result (tool_status_rows llm_defects)"
    by (simp add: results_for_def rows a b c d e)
qed

lemma rows_of_llm_based_analysis:
  "map Test_Result (tool_status_rows (llm_based_analysis t g)) = []"
  "map Test_Result (qualitative_rows (llm_based_analysis t g)) = [''Fail'']"
  by (simp_all add: llm_based_analysis_def mock_list_def goal_defect_def tool_status_rows_def
        qualitative_rows_def)

lemma rows_of_content_length:
  "map Test_Result (tool_status_rows [content_length_defect]) = [''Critical Fail'']"
  "map Test_Result (qualitative_rows [content_length_defect]) = []"
  by (simp_all add: content_length_defect_def tool_status_rows_def qualitative_rows_def)

lemma analyze_document_tool_status:
  assumes "analyze_document (Inr document) g = Inr (rows, ds)"
  shows "results_for ''Tool Status'' rows =
           (if 50 < length (join newline document) then [] else [''Critical Fail''])"
    and "results_for ''Qualitative Analysis'' rows =
           (if 50 < length (join newline document) then [''Fail''] else [])"
proof -
  let ?llm = "if 50 < length (join newline document)
              then llm_based_analysis (join newline document) g else [content_length_defect]"
  from assms have c: "consolidate (rule_based_analysis document) ?llm g = Inr (rows, ds)"
    by (simp add: analyze_document_def Let_def)
  show "results_for ''Tool Status'' rows =
           (if 50 < length (join newline document) then [] else [''Critical Fail''])"
    unfolding consolidate_results(5) [OF c]
    by (simp add: rows_of_llm_based_analysis rows_of_content_length)
  show "results_for ''Qualitative Analysis'' rows =
           (if 50 < length (join newline document) then [''Fail''] else [])"
    unfolding consolidate_results(3) [OF c]
    by (simp add: rows_of_llm_based_analysis rows_of_content_length)
qed

text \<open>
  Claim C3. The source runs the agent when \<^verbatim>\<open>len(full_text) > 50\<close>. A loaded document of
  exactly 50 characters is therefore treated as too short: the qualitative step is skipped
  and the \<^verbatim>\<open>'Tool Status'\<close> row with the result \<^verbatim>\<open>'Critical Fail'\<close> is emitted, although its
  remark says \<^verbatim>\<open>too short (< 50 characters)\<close> and the claim places a document at the
  threshold among those for which the row is omitted.
\<close>

theorem fifty_characters_tool_status:
  "length (join newline [replicate 50 (CHR ''a'')]) = 50 \<and>
   (case analyze_document (Inr [replicate 50 (CHR ''a'')]) [] of
      Inl e \<Rightarrow> False
    | Inr (rows, ds) \<Rightarrow>
        results_for ''Tool Status'' rows = [''Critical Fail''] \<and>
        results_for ''Qualitative Analysis'' rows = [])"
proof -
  obtain rows ds where r: "analyze_document (Inr [replicate 50 (CHR ''a'')]) [] = Inr (rows, ds)"
    using analyze_document_returns by blast
  from analyze_document_tool_status [OF r] r show ?thesis by simp
qed

text \<open>
  Claim C1 as stated fails: for the empty document (and any document of at most 50
  characters) the agent is not run, the category \<^verbatim>\<open>'Qualitative Analysis'\<close> has no defect,
  and the report holds no row of that category, so no row with the result \<^verbatim>\<open>'Pass'\<close>.
\<close>

theorem short_document_counterexample:
  "category_defects ''Qualitative Analysis'' (rule_based_analysis []) [content_length_defect] = [] \<and>
   (case analyze_document (Inr []) [] of
      Inl e \<Rightarrow> False
    | Inr (rows, ds) \<Rightarrow> results_for ''Qualitative Analysis'' rows = [])"
proof -
  obtain rows ds where r: "analyze_document (Inr []) [] = Inr (rows, ds)"
    using analyze_document_returns by blast
  from analyze_document_tool_status(2) [OF r] r show ?thesis
    by (simp add: category_defects_def content_length_defect_def)
qed

lemma list_ex_map: "list_ex P (map f xs) = list_ex (\<lambda>x. P (f x)) xs"
  by (induction xs) simp_all

lemma row_result_from_severities:
  assumes "consolidate rule_defects llm_defects g = Inr (rows, ds)" and "r \<in> set rows"
  shows "Test_Result r =
           (\<lambda>p sevs.
              if p = ''Tool Status'' then ''Critical Fail''
              else if p = ''Qualitative Analysis''
              then (if list_ex (\<lambda>s. s \<in> set [''High'', ''Critical'']) sevs then ''Fail''
                    else if list_ex (\<lambda>s. s = ''Medium'') sevs then ''Pass w/ Warnings''
                    else ''Pass'')
              else if sevs = [] then ''Pass'' else ''Fail'')
           (Pattern r) (map Severity (category_defects (Pattern r) rule_defects llm_defects))"
  using assms
proof (cases rule: consolidate_row_cases)
  case sections
  from mandatory_sections_row_result [OF sections] show ?thesis
    by (simp add: category_defects_def)
next
  case placeholder
  with placeholder_row_result [of rule_defects] show ?thesis
    by (simp add: category_defects_def)
next
  case qualitative
  have p: "Pattern r = ''Qualitative Analysis''"
    using qualitative by (rule qualitative_rows_pattern)
  from qualitative_rows_result [OF qualitative] show ?thesis
    by (simp add: p category_defects_def Let_def list_ex_map)
next
  case custom
  have p: "Pattern r = ''Custom Compliance''"
    using custom by (rule custom_goal_rows_pattern)
  from custom_goal_rows_result [OF custom] show ?thesis
    by (simp add: p category_defects_def)
next
  case tool
  have p: "Pattern r = ''Tool Status''"
    using tool by (rule tool_status_rows_pattern)
  from tool_status_rows_result [OF tool] show ?thesis
    by (simp add: p)
qed

lemma zero_defect_rows:
  assumes "consolidate rule_defects llm_defects g = Inr (rows, ds)"
  shows "(category_defects ''Document Structure'' rule_defects llm_defects = [] \<longrightarrow>
           results_for ''Document Structure'' rows = [''Pass'']) \<and>
         (category_defects ''Content Quality'' rule_defects llm_defects = [] \<longrightarrow>
           results_for ''Content Quality'' rows = [''Pass'']) \<and>
         (category_defects ''Qualitative Analysis'' rule_defects llm_defects = [] \<longrightarrow>
           results_for ''Qualitative Analysis'' rows =
             (if filter (\<lambda>d. Defect_Type d = ''Content Length'') llm_defects = []
              then [''Pass''] else [])) \<and>
         (category_defects ''Custom Compliance'' rule_defects llm_defects = [] \<longrightarrow>
           results_for ''Custom Compliance'' rows = (if g = [] then [] else [''Pass''])) \<and>
         (category_defects ''Tool Status'' rule_defects llm_defects = [] \<longrightarrow>
           results_for ''Tool Status'' rows = [])"
  unfolding consolidate_results [OF assms]
  by (simp add: category_defects_def qualitative_rows_def custom_goal_rows_def
        tool_status_rows_def)

text \<open>
  Claim C1, amended. The result of every summary row is a function of the \<^verbatim>\<open>'Pattern'\<close> of
  the row and of the severities of the defects of its category. A category without defects
  gives a row with the result \<^verbatim>\<open>'Pass'\<close> for \<^verbatim>\<open>'Document Structure'\<close> and
  \<^verbatim>\<open>'Content Quality'\<close>; for \<^verbatim>\<open>'Qualitative Analysis'\<close> when the agent's list holds no
  \<^verbatim>\<open>'Content Length'\<close> entry, and no row when it holds one; for \<^verbatim>\<open>'Custom Compliance'\<close> when
  a goal is given, and no row without a goal; \<^verbatim>\<open>'Tool Status'\<close> has no row then.
\<close>

theorem summary_results_from_severities:
  "(\<exists>f. \<forall>rule_defects llm_defects g rows ds r.
      consolidate rule_defects llm_defects g = Inr (rows, ds) \<longrightarrow> r \<in> set rows \<longrightarrow>
      Test_Result r =
        f (Pattern r) (map Severity (category_defects (Pattern r) rule_defects llm_defects))) \<and>
   (\<forall>rule_defects llm_defects g rows ds.
      consolidate rule_defects llm_defects g = Inr (rows, ds) \<longrightarrow>
      (category_defects ''Document Structure'' rule_defects llm_defects = [] \<longrightarrow>
         results_for ''Document Structure'' rows = [''Pass'']) \<and>
      (category_defects ''Content Quality'' rule_defects llm_defects = [] \<longrightarrow>
         results_for ''Content Quality'' rows = [''Pass'']) \<and>
      (category_defects ''Qualitative Analysis'' rule_defects llm_defects = [] \<longrightarrow>
         results_for ''Qualitative Analysis'' rows =
           (if filter (\<lambda>d. Defect_Type d = ''Content Length'') llm_defects = []
            then [''Pass''] else [])) \<and>
      (category_defects ''Custom Compliance'' rule_defects llm_defects = [] \<longrightarrow>
         results_for ''Custom Compliance'' rows = (if g = [] then [] else [''Pass''])) \<and>
      (category_defects ''Tool Status'' rule_defects llm_defects = [] \<longrightarrow>
         results_for ''Tool Status'' rows = []))"
proof (rule conjI)
  show "\<exists>f. \<forall>rule_defects llm_defects g rows ds r.
      consolidate rule_defects llm_defects g = Inr (rows, ds) \<longrightarrow> r \<in> set rows \<longrightarrow>
      Test_Result r =
        f (Pattern r) (map Severity (category_defects (Pattern r) rule_defects llm_defects))"
    by (rule exI [where x = "\<lambda>p sevs.
              if p = ''Tool Status'' then ''Critical Fail''
              else if p = ''Qualitative Analysis''
              then (if list_ex (\<lambda>s. s \<in> set [''High'', ''Critical'']) sevs then ''Fail''
                    else if list_ex (\<lambda>s. s = ''Medium'') sevs then ''Pass w/ Warnings''
                    else ''Pass'')
              else if sevs = [] then ''Pass'' else ''Fail''"])
       (use row_result_from_severities in blast)
next
  show "\<forall>rule_defects llm_defects g rows ds.
      consolidate rule_defects llm_defects g = Inr (rows, ds) \<longrightarrow>
      (category_defects ''Document Structure'' rule_defects llm_defects = [] \<longrightarrow>
         results_for ''Document Structure'' rows = [''Pass'']) \<and>
      (category_defects ''Content Quality'' rule_defects llm_defects = [] \<longrightarrow>
         results_for ''Content Quality'' rows = [''Pass'']) \<and>
      (category_defects ''Qualitative Analysis'' rule_defects llm_defects = [] \<longrightarrow>
         results_for ''Qualitative Analysis'' rows =
           (if filter (\<lambda>d. Defect_Type d = ''Content Length'') llm_defects = []
            then [''Pass''] else [])) \<and>
      (category_defects ''Custom Compliance'' rule_defects llm_defects = [] \<longrightarrow>
         results_for ''Custom Compliance'' rows = (if g = [] then [] else [''Pass''])) \<and>
      (category_defects ''Tool Status'' rule_defects llm_defects = [] \<longrightarrow>
         results_for ''Tool Status'' rows = [])"
    by (intro allI impI) (erule zero_defect_rows)
qed

section \<open>The theorems at concrete inputs\<close>

theorem summary_results_from_severities_witness:
  "category_defects ''Document Structure'' [] [] = [] \<and>
   category_defects ''Qualitative Analysis'' [] [] = [] \<and>
   (case consolidate [] [] [] of
      Inl e \<Rightarrow> False
    | Inr (rows, ds) \<Rightarrow>
        results_for ''Document Structure'' rows = [''Pass''] \<and>
        results_for ''Qualitative Analysis'' rows = [''Pass''])"
proof -
  obtain rows ds where c: "consolidate [] [] [] = Inr (rows, ds)"
    by (simp add: consolidate_def mandatory_sections_row_def)
  have z: "category_defects ''Document Structure'' [] [] = []"
    "category_defects ''Qualitative Analysis'' [] [] = []"
    by (simp_all add: category_defects_def)
  from summary_results_from_severities [THEN conjunct2, rule_format, OF c] z c
  show ?thesis by simp
qed

theorem worst_case_wins_witness:
  "\<exists>rows ds r.
     consolidate [] mock_list [] = Inr (rows, ds) \<and> r \<in> set rows \<and>
     Pattern r = ''Qualitative Analysis'' \<and>
     list_ex (\<lambda>d. Severity d = ''High'' \<or> Severity d = ''Critical'')
       (category_defects (Pattern r) [] mock_list) \<and>
     Test_Result r \<noteq> ''Pass'' \<and> Test_Result r \<noteq> ''Pass w/ Warnings''"
proof -
  obtain rows ds where c: "consolidate [] mock_list [] = Inr (rows, ds)"
    by (simp add: consolidate_def mandatory_sections_row_def)
  obtain r where q: "r \<in> set (qualitative_rows mock_list)"
    by (simp add: qualitative_rows_def mock_list_def)
  from c q have rin: "r \<in> set rows"
    by (auto elim!: consolidate_Inr)
  have p: "Pattern r = ''Qualitative Analysis''"
    using q by (rule qualitative_rows_pattern)
  have h: "list_ex (\<lambda>d. Severity d = ''High'' \<or> Severity d = ''Critical'')
             (category_defects (Pattern r) [] mock_list)"
    by (simp add: p category_defects_def mock_list_def)
  from worst_case_wins [OF c rin h] c rin p h show ?thesis by blast
qed


theorem consolidate_deterministic_witness:
  "\<exists>rows ds. consolidate [] mock_list [] = Inr (rows, ds) \<and>
             (\<forall>rows' ds'. consolidate [] mock_list [] = Inr (rows', ds') \<longrightarrow> rows' = rows)"
proof -
  obtain rows ds where c: "consolidate [] mock_list [] = Inr (rows, ds)"
    by (simp add: consolidate_def mandatory_sections_row_def)
  have "rows' = rows" if "consolidate [] mock_list [] = Inr (rows', ds')" for rows' ds'
    using consolidate_deterministic [OF that c] .
  with c show ?thesis by blast
qed

lemma upper_the_scope: "upper ''the scope'' = ''THE SCOPE''" "upper ''Scope'' = ''SCOPE''"
  by code_simp+

theorem missing_sections_exact_witness:
  "list_all (\<lambda>s. sublist (upper s) (upper (join newline [''the scope'']))) [''Scope''] \<and>
   filter (\<lambda>d. Defect_Type d = ''Structure/Completeness'')
          (rule_based_analysis_with [''Scope''] [] [''the scope'']) = [] \<and>
   filter (\<lambda>d. Defect_Type d = ''Structure/Completeness'')
          (ST_analyze_document_with [''Scope''] [] 150 (Inr [''the scope''])) = []"
proof -
  have h: "list_all (\<lambda>s. sublist (upper s) (upper (join newline [''the scope'']))) [''Scope'']"
    by (simp add: upper_the_scope sublist_Cons_right)
  from missing_sections_exact [of "[''Scope'']" "[]" "[''the scope'']" 150] h
  show ?thesis by simp
qed

lemma findall_examples:
  "findall (Bounded ''TBD'') ''tbd or TBD, todo'' = [''tbd'', ''TBD'']"
  "findall (Bounded ''TODO'') ''tbd or TBD, todo'' = [''todo'']"
  "findall (Plain ''PLACEHOLDER'') ''tbd or TBD, todo'' = []"
  by code_simp+

lemma split_ws_examples:
  "length (split_ws ''one two  three'') = 3"
  "length (split_ws ''one two'') = 2"
  by code_simp+

lemma str_nat_examples:
  "str_nat (Suc 0) = ''1''" "str_nat 1 = ''1''" "str_nat 2 = ''2''" "str_nat 3 = ''3''"
  by code_simp+

theorem one_defect_per_matching_pattern_witness:
  "filter (\<lambda>d. Defect_Type d = ''Content Placeholder'' \<and> Location d = ''Paragraph 1'')
          (rule_based_analysis_with []
             [Bounded ''TBD'', Bounded ''TODO'', Plain ''PLACEHOLDER''] [''tbd or TBD, todo'']) =
     [\<lparr>Defect_Type = ''Content Placeholder'',
       Description = ''Found hardcoded placeholder 'tbd'. Must be resolved before submission.'',
       Location = ''Paragraph 1'', Severity = ''Medium''\<rparr>,
      \<lparr>Defect_Type = ''Content Placeholder'',
       Description = ''Found hardcoded placeholder 'todo'. Must be resolved before submission.'',
       Location = ''Paragraph 1'', Severity = ''Medium''\<rparr>]"
  using one_defect_per_matching_pattern
          [of 0 "[]" "[Bounded ''TBD'', Bounded ''TODO'', Plain ''PLACEHOLDER'']"
              "[''tbd or TBD, todo'']" 150]
  by (simp add: findall_examples str_nat_examples squote_def)

theorem paragraph_too_long_iff_witness:
  "filter (\<lambda>d. Defect_Type d = ''Readability'' \<and> Location d = ''Paragraph 1'')
          (ST_analyze_document_with [] [] 2 (Inr [''one two  three''])) =
     [\<lparr>Defect_Type = ''Readability'',
       Description = ''Paragraph contains 3 words (limit is 2). Consider splitting.'',
       Location = ''Paragraph 1'', Severity = ''Low''\<rparr>] \<and>
   filter (\<lambda>d. Defect_Type d = ''Readability'' \<and> Location d = ''Paragraph 1'')
          (ST_analyze_document_with [] [] 2 (Inr [''one two''])) = []"
  using paragraph_too_long_iff [of 0 "[]" "[]" 2 "[''one two  three'']"]
        paragraph_too_long_iff [of 0 "[]" "[]" 2 "[''one two'']"]
  by (simp add: split_ws_examples str_nat_examples)

end
